theory Spec2Isabelle
  imports Main
begin

section \<open>Whitespace normalisation\<close>

text \<open>
  Strings are lists of 8-bit characters.  \<open>isspace\<close> is the whitespace class that
  both \<open>str.strip()\<close> and the regular expression \<open>\s\<close> use, restricted to the
  ASCII range: tab, line feed, vertical tab, form feed, carriage return, the four
  separators 0x1C to 0x1F, and the space.  Python's class also holds U+0085, U+00A0
  and further Unicode spaces; the model covers the texts whose whitespace is ASCII.
\<close>

definition isspace :: "char \<Rightarrow> bool" where
  "isspace c = (c \<in> {CHR 0x09, CHR 0x0A, CHR 0x0B, CHR 0x0C, CHR 0x0D,
                      CHR 0x1C, CHR 0x1D, CHR 0x1E, CHR 0x1F, CHR 0x20})"

text \<open>\<open>s.strip()\<close>: remove the leading and the trailing run of whitespace.\<close>

definition strip :: "string \<Rightarrow> string" where
  "strip s = rev (dropWhile isspace (rev (dropWhile isspace s)))"

text \<open>
  \<open>re.sub(r"\s+", " ", s)\<close>: every maximal run of whitespace is replaced by one
  space, scanning from the left.
\<close>

function sub_ws :: "string \<Rightarrow> string" where
  "sub_ws [] = []"
| "sub_ws (c # cs) =
     (if isspace c then CHR '' '' # sub_ws (dropWhile isspace cs) else c # sub_ws cs)"
  by pat_completeness auto
termination
  by (relation "measure length") (auto simp: length_dropWhile_le less_Suc_eq_le)

text \<open>\<open>clean(s) = re.sub(r"\s+", " ", (s or "").strip())\<close>; on a string \<open>s or ""\<close> is \<open>s\<close>.\<close>

definition clean :: "string \<Rightarrow> string" where
  "clean s = sub_ws (strip s)"

text \<open>A string that does not begin, respectively end, with whitespace.\<close>

definition no_lead :: "string \<Rightarrow> bool" where
  "no_lead s = (case s of [] \<Rightarrow> True | c # _ \<Rightarrow> \<not> isspace c)"

definition no_trail :: "string \<Rightarrow> bool" where
  "no_trail s = (case rev s of [] \<Rightarrow> True | c # _ \<Rightarrow> \<not> isspace c)"

section \<open>Digit groups, integers and dates\<close>

text \<open>
  The decimal digits \<open>0\<close> to \<open>9\<close>.  \<open>\d\<close> and \<open>int\<close> also accept the decimal
  digits of other scripts; the model covers the texts whose digits are ASCII.
\<close>

definition isdigit :: "char \<Rightarrow> bool" where
  "isdigit c = (48 \<le> (of_char c :: nat) \<and> (of_char c :: nat) \<le> 57)"

text \<open>\<open>re.findall(r"\d+", raw)\<close>: the maximal runs of decimal digits, left to right.\<close>

function findall_digits :: "string \<Rightarrow> string list" where
  "findall_digits [] = []"
| "findall_digits (c # cs) =
     (if isdigit c then (c # takeWhile isdigit cs) # findall_digits (dropWhile isdigit cs)
      else findall_digits cs)"
  by pat_completeness auto
termination
  by (relation "measure length") (auto simp: length_dropWhile_le less_Suc_eq_le)

text \<open>
  \<open>int(p)\<close> on a run of decimal digits.  Python integers are unbounded; the
  interpreter's configurable limit on the number of digits is not part of the model.
\<close>

definition int_py :: "string \<Rightarrow> nat" where
  "int_py p = foldl (\<lambda>a c. 10 * a + ((of_char c :: nat) - 48)) 0 p"

text \<open>
  The exceptions that can leave the functions below: a failed HTTP request
  (\<open>requests\<close> raising, also from \<open>raise_for_status\<close>), the two \<open>RuntimeError\<close>s of
  \<open>scrape_items\<close> with their messages, the \<open>ValueError\<close> and the
  \<open>OverflowError\<close> of the \<open>datetime\<close> constructor, and an \<open>OSError\<close> of the file
  system.
\<close>

datatype exn = RequestException | RuntimeError string | ValueError | OverflowError | OSError

text \<open>
  A timezone-aware UTC \<open>datetime\<close>: calendar date and the microseconds elapsed since
  midnight.
\<close>

datatype datetime = Datetime (dt_year: nat) (dt_month: nat) (dt_day: nat) (dt_micros: nat)

definition is_leap :: "nat \<Rightarrow> bool" where
  "is_leap y = (y mod 4 = 0 \<and> (y mod 100 \<noteq> 0 \<or> y mod 400 = 0))"

definition days_in_month :: "nat \<Rightarrow> nat \<Rightarrow> nat" where
  "days_in_month y m =
     (if m = 2 then (if is_leap y then 29 else 28)
      else if m = 4 \<or> m = 6 \<or> m = 9 \<or> m = 11 then 30 else 31)"

text \<open>The largest value of a C \<open>int\<close>, to which the constructor converts its arguments.\<close>

definition INT_MAX :: int where
  "INT_MAX = 2147483647"

text \<open>
  \<open>datetime(y, m, d, tzinfo=timezone.utc)\<close>: an argument beyond the C \<open>int\<close> range
  raises \<open>OverflowError\<close>.  Otherwise the standard library accepts
  \<open>MINYEAR = 1 \<le> y \<le> MAXYEAR = 9999\<close>, \<open>1 \<le> m \<le> 12\<close> and
  \<open>1 \<le> d \<le>\<close> the number of days of that month, and raises \<open>ValueError\<close> on
  anything else.
\<close>

definition datetime_utc :: "nat \<Rightarrow> nat \<Rightarrow> nat \<Rightarrow> exn + datetime" where
  "datetime_utc y m d =
     (if INT_MAX < int y \<or> INT_MAX < int m \<or> INT_MAX < int d then Inl OverflowError
      else if 1 \<le> y \<and> y \<le> 9999 \<and> 1 \<le> m \<and> m \<le> 12 \<and> 1 \<le> d \<and> d \<le> days_in_month y m
      then Inr (Datetime y m d 0) else Inl ValueError)"

text \<open>The exceptions of the \<open>datetime\<close> constructor.\<close>

definition date_error :: "exn \<Rightarrow> bool" where
  "date_error e = (e = ValueError \<or> e = OverflowError)"

section \<open>Configuration, items, feed and the outside world\<close>

record SiteConfig =
  slug :: string
  title :: string
  page_url :: string
  item_selectors :: "string list"
  title_selectors :: "string list"
  link_selectors :: "string list"
  date_selectors :: "string list"

text \<open>The dictionary \<open>{"title": ..., "link": ..., "date": ...}\<close> appended per item.\<close>

record item =
  item_title :: string
  item_link :: string
  item_date :: datetime

text \<open>
  The state of a \<open>FeedGenerator\<close> as far as \<open>build_rss\<close> sets it: the channel
  fields and the list of entries, each with the fields set through \<open>fe.id\<close>,
  \<open>fe.title\<close>, \<open>fe.link\<close> and \<open>fe.pubDate\<close>.
\<close>

record FeedEntry =
  entry_id :: string
  entry_title :: string
  entry_link :: string
  entry_pubDate :: datetime

record FeedGenerator =
  fg_title :: "string option"
  fg_link :: "(string \<times> string) option"
  fg_description :: "string option"
  fg_language :: "string option"
  fg_entries :: "FeedEntry list"

text \<open>
  The libraries and the network are parameters of the model.  For an element type
  \<open>'e\<close> (a \<open>bs4\<close> tag):
  \<^item> \<open>http_get url\<close> is the body that \<open>requests.get\<close> followed by
    \<open>raise_for_status\<close> delivers, \<open>None\<close> when either raises;
  \<^item> \<open>soup_select html sel\<close> is \<open>BeautifulSoup(html, "lxml").select(sel)\<close>, in
    document order, and \<open>soup_select_one\<close> its \<open>select_one\<close>;
  \<^item> \<open>select_one el sel\<close> is \<open>el.select_one(sel)\<close>, \<open>get_text el\<close> is
    \<open>el.get_text()\<close> and \<open>get_attr el a\<close> is \<open>el.get(a)\<close>;
  \<^item> \<open>urljoin base u\<close> is \<open>urllib.parse.urljoin\<close>, whose second argument is
    \<open>None\<close> when the attribute is absent;
  \<^item> \<open>utcnow i\<close> is the value \<open>datetime.now(timezone.utc)\<close> returns when it is
    called in iteration \<open>i\<close> of the loop over the candidates;
  \<^item> \<open>rss_str fg\<close> is \<open>fg.rss_str(pretty=True)\<close>, which may raise.

  The selector engine is total here: the selectors of a configuration are taken to be
  well-formed, so that \<open>select\<close> and \<open>select_one\<close> return and do not raise.
  So is \<open>urljoin\<close>: the page URL and the \<open>href\<close> values are taken to be URLs that
  \<open>urllib\<close> can split; the \<open>ValueError\<close> it raises on a malformed one (at lines 49
  and 122) is outside the model.
\<close>

record 'e env =
  http_get :: "string \<Rightarrow> string option"
  soup_select :: "string \<Rightarrow> string \<Rightarrow> 'e list"
  soup_select_one :: "string \<Rightarrow> string \<Rightarrow> 'e option"
  select_one :: "'e \<Rightarrow> string \<Rightarrow> 'e option"
  get_text :: "'e \<Rightarrow> string"
  get_attr :: "'e \<Rightarrow> string \<Rightarrow> string option"
  urljoin :: "string \<Rightarrow> string option \<Rightarrow> string"
  utcnow :: "nat \<Rightarrow> datetime"
  rss_str :: "FeedGenerator \<Rightarrow> exn + string"

text \<open>
  What the program can change: the lines printed, the directories and the files
  (a path is its list of components).
\<close>

record world =
  stdout :: "string list"
  dirs :: "string list set"
  files :: "string list \<rightharpoonup> string"

definition print :: "string \<Rightarrow> world \<Rightarrow> world" where
  "print line w = w\<lparr>stdout := stdout w @ [line]\<rparr>"

section \<open>Fetcher and feed probe\<close>

definition fetch :: "'e env \<Rightarrow> string \<Rightarrow> exn + string" where
  "fetch E url = (case http_get E url of None \<Rightarrow> Inl RequestException | Some text \<Rightarrow> Inr text)"

definition rss_link_selector :: string where
  "rss_link_selector =
     ''link[rel='' @ [CHR 0x22] @ ''alternate'' @ [CHR 0x22] @ ''][type*='' @ [CHR 0x22] @ ''rss''
       @ [CHR 0x22] @ ''], link[rel='' @ [CHR 0x22] @ ''alternate'' @ [CHR 0x22] @ ''][type*=''
       @ [CHR 0x22] @ ''xml'' @ [CHR 0x22] @ '']''"

definition find_existing_rss :: "'e env \<Rightarrow> string \<Rightarrow> string \<Rightarrow> string option" where
  "find_existing_rss E page_html base_url =
     (case soup_select_one E page_html rss_link_selector of
        None \<Rightarrow> None
      | Some link \<Rightarrow>
          (case get_attr E link ''href'' of
             None \<Rightarrow> None
           | Some h \<Rightarrow> if h = [] then None else Some (urljoin E base_url (Some h))))"

definition guess_common_rss_endpoints :: "'e env \<Rightarrow> string \<Rightarrow> string list" where
  "guess_common_rss_endpoints E base =
     [urljoin E base (Some ''/feed/''), urljoin E base (Some ''/?feed=rss2''),
      urljoin E base (Some ''/rss''), urljoin E base (Some ''/rss.xml''),
      urljoin E base (Some ''/feed.xml'')]"

fun startswith :: "string \<Rightarrow> string \<Rightarrow> bool" where
  "startswith s [] = True"
| "startswith [] (p # ps) = False"
| "startswith (c # cs) (p # ps) = (c = p \<and> startswith cs ps)"

text \<open>\<open>p in s\<close> on strings: \<open>p\<close> occurs in \<open>s\<close> as a substring.\<close>

fun str_in :: "string \<Rightarrow> string \<Rightarrow> bool" where
  "str_in p [] = (p = [])"
| "str_in p (c # cs) = (startswith (c # cs) p \<or> str_in p cs)"

fun try_fetch_rss :: "'e env \<Rightarrow> string list \<Rightarrow> string option" where
  "try_fetch_rss E [] = None"
| "try_fetch_rss E (u # us) =
     (case fetch E u of
        Inl e \<Rightarrow> try_fetch_rss E us
      | Inr xml \<Rightarrow> if str_in ''<rss'' xml \<or> str_in ''<feed'' xml then Some u
                  else try_fetch_rss E us)"

section \<open>Item extractor\<close>

text \<open>Lines 94 to 99: \<open>container\<close> stays \<open>None\<close> until a selector finds something.\<close>

fun find_container :: "(string \<Rightarrow> 'e list) \<Rightarrow> string list \<Rightarrow> 'e list option" where
  "find_container select [] = None"
| "find_container select (sel # rest) =
     (let found = select sel in
      if found \<noteq> [] then Some found else find_container select rest)"

text \<open>
  Lines 106 to 110.  The loop variable \<open>title_el\<close> is assigned by every iteration; the
  last argument is its value before the loop continues.
\<close>

fun find_title_el :: "'e env \<Rightarrow> 'e \<Rightarrow> string list \<Rightarrow> 'e option \<Rightarrow> 'e option" where
  "find_title_el E it [] title_el = title_el"
| "find_title_el E it (ts # rest) title_el =
     (case select_one E it ts of
        Some el \<Rightarrow> Some el
      | None \<Rightarrow> find_title_el E it rest None)"

text \<open>\<open>link_el.get("href")\<close> as a condition: present and not the empty string.\<close>

definition has_href :: "'e env \<Rightarrow> 'e \<Rightarrow> bool" where
  "has_href E el = (case get_attr E el ''href'' of None \<Rightarrow> False | Some h \<Rightarrow> h \<noteq> [])"

text \<open>
  Lines 112 to 116.  \<open>link_el\<close> is assigned by every iteration, also by one that does
  not \<open>break\<close>, so after the last selector it holds whatever that selector matched.
\<close>

fun find_link_el :: "'e env \<Rightarrow> 'e \<Rightarrow> string list \<Rightarrow> 'e option \<Rightarrow> 'e option" where
  "find_link_el E it [] link_el = link_el"
| "find_link_el E it (ls # rest) link_el =
     (case select_one E it ls of
        Some el \<Rightarrow> if has_href E el then Some el else find_link_el E it rest (Some el)
      | None \<Rightarrow> find_link_el E it rest None)"

text \<open>Lines 125 to 135, with \<open>dt\<close> the value read from the clock at line 125.\<close>

fun extract_date :: "'e env \<Rightarrow> 'e \<Rightarrow> string list \<Rightarrow> datetime \<Rightarrow> exn + datetime" where
  "extract_date E it [] dt = Inr dt"
| "extract_date E it (ds # rest) dt =
     (case select_one E it ds of
        None \<Rightarrow> extract_date E it rest dt
      | Some d_el \<Rightarrow>
          (case findall_digits (clean (get_text E d_el)) of
             d # m # y # others \<Rightarrow> datetime_utc (int_py y) (int_py m) (int_py d)
           | _ \<Rightarrow> Inr dt))"

text \<open>
  The body of the loop of lines 105 to 137 for the candidate \<open>it\<close> in iteration
  \<open>i\<close>: \<open>Inr None\<close> is the \<open>continue\<close> of line 119, \<open>Inl\<close> an exception.
\<close>

definition scrape_one :: "'e env \<Rightarrow> SiteConfig \<Rightarrow> nat \<Rightarrow> 'e \<Rightarrow> exn + item option" where
  "scrape_one E cfg i it =
     (case find_title_el E it (title_selectors cfg) None of
        None \<Rightarrow> Inr None
      | Some title_el \<Rightarrow>
          (case find_link_el E it (link_selectors cfg) None of
             None \<Rightarrow> Inr None
           | Some link_el \<Rightarrow>
               (case extract_date E it (date_selectors cfg) (utcnow E i) of
                  Inl e \<Rightarrow> Inl e
                | Inr dt \<Rightarrow>
                    Inr (Some \<lparr>item_title = clean (get_text E title_el),
                               item_link = urljoin E (page_url cfg) (get_attr E link_el ''href''),
                               item_date = dt\<rparr>))))"

fun scrape_loop :: "'e env \<Rightarrow> SiteConfig \<Rightarrow> nat \<Rightarrow> 'e list \<Rightarrow> item list \<Rightarrow> exn + item list" where
  "scrape_loop E cfg i [] items = Inr items"
| "scrape_loop E cfg i (it # rest) items =
     (case scrape_one E cfg i it of
        Inl e \<Rightarrow> Inl e
      | Inr None \<Rightarrow> scrape_loop E cfg (Suc i) rest items
      | Inr (Some x) \<Rightarrow> scrape_loop E cfg (Suc i) rest (items @ [x]))"

definition msg_no_container :: "SiteConfig \<Rightarrow> string" where
  "msg_no_container cfg =
     ''['' @ slug cfg @ ''] Ne nalazim elemente. Provjeri item_selectors za: '' @ page_url cfg"

text \<open>The message of line 140; its fourth word is written with the UTF-8 bytes of s-caron.\<close>

definition msg_none_parsable :: "SiteConfig \<Rightarrow> string" where
  "msg_none_parsable cfg =
     ''['' @ slug cfg @ ''] Na'' @ [CHR 0xC5, CHR 0xA1]
       @ ''ao sam kontejnere, ali nisam izvukao nijedan item (naslov/link).''"

text \<open>Lines 104 to 142: what happens once the container is known.\<close>

definition scrape_container :: "'e env \<Rightarrow> SiteConfig \<Rightarrow> 'e list \<Rightarrow> exn + item list" where
  "scrape_container E cfg container =
     (case scrape_loop E cfg 0 (take 30 container) [] of
        Inl e \<Rightarrow> Inl e
      | Inr items \<Rightarrow>
          if items = [] then Inl (RuntimeError (msg_none_parsable cfg)) else Inr items)"

text \<open>Lines 94 to 142 on the parsed page \<open>html\<close>.\<close>

definition scrape_page :: "'e env \<Rightarrow> SiteConfig \<Rightarrow> string \<Rightarrow> exn + item list" where
  "scrape_page E cfg html =
     (case find_container (soup_select E html) (item_selectors cfg) of
        None \<Rightarrow> Inl (RuntimeError (msg_no_container cfg))
      | Some container \<Rightarrow>
          if container = [] then Inl (RuntimeError (msg_no_container cfg))
          else scrape_container E cfg container)"

text \<open>Lines 82 to 91: the two probes only print.\<close>

definition probe :: "'e env \<Rightarrow> SiteConfig \<Rightarrow> string \<Rightarrow> world \<Rightarrow> world" where
  "probe E cfg html w =
     (let w1 = (case find_existing_rss E html (page_url cfg) of
                  None \<Rightarrow> w
                | Some rss_url \<Rightarrow>
                    if rss_url = [] then w
                    else print (''['' @ slug cfg @ ''] Found RSS in head: '' @ rss_url) w)
      in case try_fetch_rss E (guess_common_rss_endpoints E (page_url cfg)) of
           None \<Rightarrow> w1
         | Some guessed \<Rightarrow>
             if guessed = [] then w1
             else print (''['' @ slug cfg @ ''] Guessed RSS endpoint works: '' @ guessed) w1)"

definition scrape_items :: "'e env \<Rightarrow> SiteConfig \<Rightarrow> world \<Rightarrow> (exn + item list) \<times> world" where
  "scrape_items E cfg w =
     (case fetch E (page_url cfg) of
        Inl e \<Rightarrow> (Inl e, w)
      | Inr html \<Rightarrow> (scrape_page E cfg html, probe E cfg html w))"

section \<open>Feed builder\<close>

text \<open>
  \<open>feedgen\<close> declares \<open>add_entry(self, feedEntry=None, order='prepend')\<close>: with
  \<open>'prepend'\<close> the entry is inserted at index 0 of the entry list, with any other value
  it is appended.  \<open>build_rss\<close> calls \<open>fg.add_entry()\<close>, so with the default.  The
  entry object is filled in after it has been inserted; its place in the list is fixed
  by then, so the model inserts the filled entry.
\<close>

datatype order = Prepend | Append

definition add_entry :: "order \<Rightarrow> FeedEntry \<Rightarrow> FeedGenerator \<Rightarrow> FeedGenerator" where
  "add_entry ord fe fg =
     (case ord of
        Prepend \<Rightarrow> fg\<lparr>fg_entries := fe # fg_entries fg\<rparr>
      | Append \<Rightarrow> fg\<lparr>fg_entries := fg_entries fg @ [fe]\<rparr>)"

definition entry_of :: "item \<Rightarrow> FeedEntry" where
  "entry_of it = \<lparr>entry_id = item_link it, entry_title = item_title it,
                  entry_link = item_link it, entry_pubDate = item_date it\<rparr>"

fun add_entries :: "item list \<Rightarrow> FeedGenerator \<Rightarrow> FeedGenerator" where
  "add_entries [] fg = fg"
| "add_entries (it # its) fg = add_entries its (add_entry Prepend (entry_of it) fg)"

text \<open>Lines 148 to 159: the feed object handed to \<open>rss_str\<close>.\<close>

definition build_feed :: "SiteConfig \<Rightarrow> item list \<Rightarrow> FeedGenerator" where
  "build_feed cfg items =
     add_entries items
       \<lparr>fg_title = Some (title cfg),
        fg_link = Some (page_url cfg, ''alternate''),
        fg_description = Some (''Generirani RSS za: '' @ page_url cfg),
        fg_language = Some ''hr'',
        fg_entries = []\<rparr>"

section \<open>File system and \<open>build_rss\<close>\<close>

definition ancestors :: "string list \<Rightarrow> string list list" where
  "ancestors p = map (\<lambda>n. take n p) [1..<Suc (length p)]"

text \<open>
  \<open>out_dir.mkdir(parents=True, exist_ok=True)\<close>: creates the directory and its missing
  parents; it raises when a file is in the way.
\<close>

definition mkdir_parents :: "string list \<Rightarrow> world \<Rightarrow> exn + world" where
  "mkdir_parents p w =
     (if list_ex (\<lambda>q. files w q \<noteq> None) (ancestors p) then Inl OSError
      else Inr (w\<lparr>dirs := dirs w \<union> set (ancestors p)\<rparr>))"

text \<open>\<open>out_path.write_bytes(data)\<close>: replaces the file; it raises on a directory.\<close>

definition write_bytes :: "string list \<Rightarrow> string \<Rightarrow> world \<Rightarrow> exn + world" where
  "write_bytes p data w =
     (if p \<in> dirs w then Inl OSError else Inr (w\<lparr>files := (files w)(p \<mapsto> data)\<rparr>))"

definition build_rss ::
  "'e env \<Rightarrow> SiteConfig \<Rightarrow> string list \<Rightarrow> world \<Rightarrow> (exn + string list) \<times> world" where
  "build_rss E cfg out_dir w =
     (case scrape_items E cfg w of
        (Inl e, w1) \<Rightarrow> (Inl e, w1)
      | (Inr items, w1) \<Rightarrow>
          (let fg = build_feed cfg items in
           case mkdir_parents out_dir w1 of
             Inl e \<Rightarrow> (Inl e, w1)
           | Inr w2 \<Rightarrow>
               (let out_path = out_dir @ [slug cfg @ ''.xml''] in
                case rss_str E fg of
                  Inl e \<Rightarrow> (Inl e, w2)
                | Inr data \<Rightarrow>
                    (case write_bytes out_path data w2 of
                       Inl e \<Rightarrow> (Inl e, w2)
                     | Inr w3 \<Rightarrow> (Inr out_path, w3)))))"

text \<open>
  Line 118, \<open>if not title_el or not link_el: continue\<close>: the candidate is dropped
  when one of the two loops ended with \<open>None\<close>.
\<close>

definition dropped :: "'e env \<Rightarrow> SiteConfig \<Rightarrow> 'e \<Rightarrow> bool" where
  "dropped E cfg it =
     (find_title_el E it (title_selectors cfg) None = None
      \<or> find_link_el E it (link_selectors cfg) None = None)"

text \<open>What iteration \<open>i\<close> contributes to \<open>items\<close> when it raises nothing.\<close>

definition produced :: "'e env \<Rightarrow> SiteConfig \<Rightarrow> nat \<times> 'e \<Rightarrow> item option" where
  "produced E cfg p =
     (case scrape_one E cfg (fst p) (snd p) of Inl e \<Rightarrow> None | Inr r \<Rightarrow> r)"

section \<open>Example documents\<close>

text \<open>
  A small document model on which the functions above can be run.  An element has a
  tag, attributes, its own text and child elements; a selector is a tag name and
  matches the descendants with that tag, in document order.
\<close>

datatype node =
  Node (nd_tag: string) (nd_attrs: "(string \<times> string) list") (nd_text: string)
    (nd_kids: "node list")

fun descendants :: "node \<Rightarrow> node list" where
  "descendants (Node t a x ks) = concat (map (\<lambda>k. k # descendants k) ks)"

fun node_text :: "node \<Rightarrow> string" where
  "node_text (Node t a x ks) = x @ concat (map node_text ks)"

definition by_tag :: "node \<Rightarrow> string \<Rightarrow> node list" where
  "by_tag n sel = filter (\<lambda>k. nd_tag k = sel) (descendants n)"

definition first_by_tag :: "node \<Rightarrow> string \<Rightarrow> node option" where
  "first_by_tag n sel = (case by_tag n sel of [] \<Rightarrow> None | k # ks \<Rightarrow> Some k)"

definition example_now :: "nat \<Rightarrow> datetime" where
  "example_now i = Datetime 2026 1 15 (1000 + i)"

definition example_env :: "node \<Rightarrow> node env" where
  "example_env doc =
     \<lparr>http_get = (\<lambda>url. if url = ''https://example.org'' then Some ''<html>'' else None),
      soup_select = (\<lambda>html. by_tag doc),
      soup_select_one = (\<lambda>html. first_by_tag doc),
      select_one = first_by_tag,
      get_text = node_text,
      get_attr = (\<lambda>el. map_of (nd_attrs el)),
      urljoin = (\<lambda>base u. case u of None \<Rightarrow> base | Some h \<Rightarrow> base @ h),
      utcnow = example_now,
      rss_str = (\<lambda>fg. Inr ''<rss/>'')\<rparr>"

definition example_cfg :: SiteConfig where
  "example_cfg =
     \<lparr>slug = ''demo'', title = ''Demo'', page_url = ''https://example.org'',
      item_selectors = [''article'', ''div'', ''li''], title_selectors = [''h2'', ''h3''],
      link_selectors = [''a'', ''b''], date_selectors = [''time'', ''span'']\<rparr>"

text \<open>\<open><h2>t</h2>\<close>, \<open><a href="h">x</a>\<close>, \<open><a>x</a>\<close> and \<open><time>x</time>\<close>.\<close>

definition h2 :: "string \<Rightarrow> node" where
  "h2 t = Node ''h2'' [] t []"

definition a_href :: "string \<Rightarrow> string \<Rightarrow> node" where
  "a_href h x = Node ''a'' [(''href'', h)] x []"

definition a_bare :: "string \<Rightarrow> node" where
  "a_bare x = Node ''a'' [] x []"

definition time_el :: "string \<Rightarrow> node" where
  "time_el x = Node ''time'' [] x []"

definition article :: "node list \<Rightarrow> node" where
  "article ks = Node ''article'' [] [] ks"

definition body :: "node list \<Rightarrow> node" where
  "body ks = Node ''body'' [] [] ks"

definition span_el :: "string \<Rightarrow> node" where
  "span_el x = Node ''span'' [] x []"

text \<open>One \<open>div\<close> and two \<open>li\<close> elements, no \<open>article\<close>.\<close>

definition page_lists :: node where
  "page_lists =
     body [Node ''div'' [] [] [h2 ''Notice'', a_href ''/n1'' ''more''],
           Node ''li'' [] [] [h2 ''First'', a_href ''/l1'' ''more''],
           Node ''li'' [] [] [h2 ''Second'', a_href ''/l2'' ''more'']]"

text \<open>Two articles: the first has a link and no heading, the second a heading and no link.\<close>

definition page_untitled :: node where
  "page_untitled = body [article [a_href ''/x'' ''read''], article [h2 ''Closed'']]"

text \<open>An article whose heading is empty.\<close>

definition page_empty_title :: node where
  "page_empty_title = body [article [h2 [], a_href ''/e'' ''read'']]"

text \<open>An article whose heading is spread over lines, next to an \<open>li\<close> of its own.\<close>

definition page_spaced :: node where
  "page_spaced =
     body [article [h2 (''  Road'' @ [CHR 0x0A, CHR 0x09] @ ''works ''), a_href ''/r'' ''read''],
           Node ''li'' [] [] [h2 ''Other'', a_href ''/o'' ''read'']]"

text \<open>Two articles with a heading and an anchor without \<open>href\<close> each.\<close>

definition page_anchors :: node where
  "page_anchors =
     body [article [h2 ''Lines'', a_bare ''top''], article [h2 ''Fares'', a_bare ''up'']]"

text \<open>An article whose only anchor has no \<open>href\<close>.\<close>

definition page_no_href :: node where
  "page_no_href = body [article [h2 ''Timetable'', a_bare ''top'']]"

text \<open>Articles with dates: year first, not a date at all, and day first.\<close>

definition page_year_first :: node where
  "page_year_first = body [article [h2 ''Works'', a_href ''/w'' ''read'', time_el ''2024 05 12'']]"

definition item_tba :: node where
  "item_tba = article [h2 ''Fair'', a_href ''/f'' ''read'', time_el ''TBA'', span_el ''12.05.2024'']"

definition item_dated :: node where
  "item_dated = article [h2 ''Works'', a_href ''/w'' ''read'', time_el ''12.05.2024.'']"

text \<open>Forty candidates: 29 without a link, then one complete, then ten more complete ones.\<close>

definition first_thirty :: "node list" where
  "first_thirty =
     replicate 29 (article [h2 ''Old'']) @ [article [h2 ''Kept'', a_href ''/k'' ''read'']]"

definition last_ten :: "node list" where
  "last_ten = replicate 10 (article [h2 ''Late'', a_href ''/late'' ''read''])"

definition example_world :: world where
  "example_world =
     \<lparr>stdout = [], dirs = {[''docs''], [''docs'', ''rss'']},
      files = [[''docs'', ''rss'', ''demo.xml''] \<mapsto> ''<old/>'']\<rparr>"

definition item_one :: item where
  "item_one = \<lparr>item_title = ''One'', item_link = ''https://example.org/1'',
                item_date = Datetime 2024 5 12 0\<rparr>"

definition item_two :: item where
  "item_two = \<lparr>item_title = ''Two'', item_link = ''https://example.org/2'',
                item_date = Datetime 2024 5 11 0\<rparr>"

section \<open>Properties of the normaliser\<close>

lemma no_lead_dropWhile: "no_lead (dropWhile isspace s)"
  by (induction s) (auto simp: no_lead_def)

lemma dropWhile_no_lead: "no_lead s \<Longrightarrow> dropWhile isspace s = s"
  by (cases s) (auto simp: no_lead_def)

lemma no_lead_sub_ws: "no_lead s \<Longrightarrow> no_lead (sub_ws s)"
  by (cases s) (auto simp: no_lead_def)

lemma sub_ws_idem: "sub_ws (sub_ws s) = sub_ws s"
proof (induction s rule: sub_ws.induct)
  case 1
  show ?case by simp
next
  case (2 c cs)
  show ?case
  proof (cases "isspace c")
    case True
    have nl: "no_lead (sub_ws (dropWhile isspace cs))"
      by (rule no_lead_sub_ws [OF no_lead_dropWhile])
    have sp: "isspace CHR '' ''" by (simp add: isspace_def)
    from True 2 sp show ?thesis
      by (simp add: dropWhile_no_lead [OF nl])
  next
    case False
    with 2 show ?thesis by simp
  qed
qed

lemma sub_ws_Nil_iff: "sub_ws s = [] \<longleftrightarrow> s = []"
  by (cases s) auto

lemma last_sub_ws: "s \<noteq> [] \<Longrightarrow> \<not> isspace (last s) \<Longrightarrow> \<not> isspace (last (sub_ws s))"
proof (induction s rule: sub_ws.induct)
  case 1
  then show ?case by simp
next
  case (2 c cs)
  show ?case
  proof (cases "isspace c")
    case True
    with 2(3,4) have ne: "cs \<noteq> []" by auto
    from 2(3,4) ne have lastcs: "\<not> isspace (last cs)" by simp
    have dne: "dropWhile isspace cs \<noteq> []"
      using lastcs ne by (metis dropWhile_eq_Nil_conv last_in_set)
    have "last (dropWhile isspace cs) = last cs"
      using dne by (metis last_appendR takeWhile_dropWhile_id)
    with 2(1) True dne lastcs have "\<not> isspace (last (sub_ws (dropWhile isspace cs)))"
      by simp
    moreover have "sub_ws (dropWhile isspace cs) \<noteq> []"
      using dne by (simp only: sub_ws_Nil_iff not_False_eq_True)
    ultimately show ?thesis using True by simp
  next
    case False
    show ?thesis
    proof (cases "cs = []")
      case True
      with False show ?thesis by simp
    next
      case ne: False
      with 2(3,4) have "\<not> isspace (last cs)" by simp
      with 2(2) False ne have "\<not> isspace (last (sub_ws cs))" by simp
      moreover have "sub_ws cs \<noteq> []"
        using ne by (simp only: sub_ws_Nil_iff not_False_eq_True)
      ultimately show ?thesis using False by simp
    qed
  qed
qed

lemma no_trail_rev: "no_trail s \<longleftrightarrow> no_lead (rev s)"
  by (simp add: no_trail_def no_lead_def)

lemma no_trail_last: "no_trail s \<longleftrightarrow> s = [] \<or> \<not> isspace (last s)"
  by (cases s rule: rev_cases) (auto simp: no_trail_def)

lemma strip_fixed: "no_lead s \<Longrightarrow> no_trail s \<Longrightarrow> strip s = s"
  by (simp add: strip_def dropWhile_no_lead no_trail_rev)

lemma no_trail_strip: "no_trail (strip s)"
  by (simp add: strip_def no_trail_rev no_lead_dropWhile)

lemma no_lead_strip: "no_lead (strip s)"
proof -
  let ?t = "dropWhile isspace s"
  have nl: "no_lead ?t" by (rule no_lead_dropWhile)
  show ?thesis
  proof (cases "strip s = []")
    case True
    then show ?thesis by (simp add: no_lead_def)
  next
    case False
    then have ne: "dropWhile isspace (rev ?t) \<noteq> []" by (simp add: strip_def)
    have "rev ?t = takeWhile isspace (rev ?t) @ dropWhile isspace (rev ?t)" by simp
    then have "?t = strip s @ rev (takeWhile isspace (rev ?t))"
      unfolding strip_def by (metis rev_append rev_rev_ident)
    with False nl show ?thesis
      by (cases "strip s") (auto simp: no_lead_def split: list.splits)
  qed
qed

lemma no_trail_sub_ws: "no_trail s \<Longrightarrow> no_trail (sub_ws s)"
proof (cases "s = []")
  case True
  then show ?thesis by (simp add: no_trail_def)
next
  case False
  assume "no_trail s"
  with False have "\<not> isspace (last s)" by (simp add: no_trail_last)
  with False have "\<not> isspace (last (sub_ws s))" by (rule last_sub_ws)
  then show ?thesis by (simp add: no_trail_last)
qed

lemma clean_fixed: "clean (clean s) = clean s"
proof -
  have "no_lead (clean s)" "no_trail (clean s)"
    by (simp_all add: clean_def no_lead_sub_ws no_lead_strip no_trail_sub_ws no_trail_strip)
  then have "strip (clean s) = clean s" by (rule strip_fixed)
  then show ?thesis by (simp add: clean_def sub_ws_idem)
qed

text \<open>
  Claim C9.  The whitespace normaliser is idempotent: for every string \<open>x\<close>,
  \<open>clean (clean x) = clean x\<close>.
\<close>

theorem clean_idempotent: "clean (clean x) = clean x"
  by (rule clean_fixed)

section \<open>Running the examples\<close>

text \<open>The equations that run the functions on the example documents.\<close>

lemmas ex_simps = example_env_def example_cfg_def body_def h2_def a_href_def a_bare_def time_el_def
  article_def span_el_def by_tag_def first_by_tag_def scrape_page_def scrape_container_def
  scrape_one_def has_href_def clean_def strip_def isspace_def isdigit_def example_now_def
  msg_no_container_def msg_none_parsable_def Let_def dropped_def

section \<open>Container selection\<close>

lemma find_container_first:
  "\<forall>p\<in>set pre. f p = [] \<Longrightarrow> f s \<noteq> [] \<Longrightarrow> find_container f (pre @ s # post) = Some (f s)"
  by (induction pre) (simp_all add: Let_def)

lemma find_container_none:
  "\<forall>p\<in>set sels. f p = [] \<Longrightarrow> find_container f sels = None"
  by (induction sels) (simp_all add: Let_def)

lemma find_container_Some:
  "find_container f sels = Some c \<Longrightarrow> c \<noteq> [] \<and> (\<exists>s\<in>set sels. c = f s)"
  by (induction sels) (auto simp: Let_def split: if_splits)

lemma fetch_soup_select [simp]: "fetch (E\<lparr>soup_select := f\<rparr>) u = fetch E u"
  by (simp add: fetch_def)

lemma scrape_one_soup_select [simp]:
  "scrape_one (E\<lparr>soup_select := f\<rparr>) cfg i it = scrape_one E cfg i it"
proof -
  have t: "find_title_el (E\<lparr>soup_select := f\<rparr>) it sels cur = find_title_el E it sels cur"
    for sels cur
    by (induction sels arbitrary: cur) (simp_all split: option.splits)
  have l: "find_link_el (E\<lparr>soup_select := f\<rparr>) it sels cur = find_link_el E it sels cur"
    for sels cur
    by (induction sels arbitrary: cur) (simp_all add: has_href_def split: option.splits)
  have d: "extract_date (E\<lparr>soup_select := f\<rparr>) it sels dt = extract_date E it sels dt"
    for sels dt
    by (induction sels) (simp_all split: option.splits)
  show ?thesis by (simp add: scrape_one_def t l d split: option.splits sum.splits)
qed

lemma scrape_one_item_selectors [simp]:
  "scrape_one E (cfg\<lparr>item_selectors := xs\<rparr>) i it = scrape_one E cfg i it"
  by (simp add: scrape_one_def split: option.splits sum.splits)

lemma scrape_loop_indep:
  "scrape_loop (E\<lparr>soup_select := f\<rparr>) (cfg\<lparr>item_selectors := xs\<rparr>) i c acc
     = scrape_loop E cfg i c acc"
  by (induction c arbitrary: i acc) (simp_all split: sum.splits option.splits)

lemma scrape_container_indep:
  "scrape_container (E\<lparr>soup_select := f\<rparr>) (cfg\<lparr>item_selectors := xs\<rparr>) c
     = scrape_container E cfg c"
  by (simp add: scrape_container_def scrape_loop_indep msg_none_parsable_def split: sum.splits)

lemma scrape_page_found:
  assumes "\<forall>p\<in>set pre. soup_select E html p = []" and "soup_select E html s \<noteq> []"
    and "item_selectors cfg = pre @ s # post"
  shows "scrape_page E cfg html = scrape_container E cfg (soup_select E html s)"
  using assms by (simp add: scrape_page_def find_container_first)

lemma scrape_items_fst:
  "fst (scrape_items E cfg w) =
     (case fetch E (page_url cfg) of Inl e \<Rightarrow> Inl e | Inr html \<Rightarrow> scrape_page E cfg html)"
  by (simp add: scrape_items_def split: sum.splits)

text \<open>
  Claim C4.  Container selection is first-match-wins.  On a fetched page, if the
  selectors before \<open>s\<close> in \<open>item_selectors\<close> match nothing and \<open>s\<close> matches
  something, \<open>scrape_items\<close> works on the matches of \<open>s\<close>, and its result is the same
  whatever selectors follow \<open>s\<close> and whatever they would match: they are never tried,
  so the container is neither a union nor the largest match.  If no selector matches,
  \<open>scrape_items\<close> fails with the "no container" error.
\<close>

theorem container_first_match_wins:
  "(fetch E (page_url cfg) = Inr html \<and> item_selectors cfg = pre @ s # post
      \<and> (\<forall>p\<in>set pre. soup_select E html p = []) \<and> soup_select E html s \<noteq> []
    \<longrightarrow> fst (scrape_items E cfg w) = scrape_container E cfg (soup_select E html s)
        \<and> (\<forall>f post'. (\<forall>p\<in>set (pre @ [s]). f html p = soup_select E html p)
              \<longrightarrow> fst (scrape_items (E\<lparr>soup_select := f\<rparr>)
                         (cfg\<lparr>item_selectors := pre @ s # post'\<rparr>) w)
                    = fst (scrape_items E cfg w)))
   \<and> (fetch E (page_url cfg) = Inr html
        \<and> (\<forall>p\<in>set (item_selectors cfg). soup_select E html p = [])
      \<longrightarrow> fst (scrape_items E cfg w) = Inl (RuntimeError (msg_no_container cfg)))"
proof (intro conjI impI allI)
  assume a: "fetch E (page_url cfg) = Inr html \<and> item_selectors cfg = pre @ s # post
      \<and> (\<forall>p\<in>set pre. soup_select E html p = []) \<and> soup_select E html s \<noteq> []"
  then have "scrape_page E cfg html = scrape_container E cfg (soup_select E html s)"
    using scrape_page_found [of pre E html s cfg post] by blast
  with a show here: "fst (scrape_items E cfg w) = scrape_container E cfg (soup_select E html s)"
    by (simp add: scrape_items_fst)
  fix f post'
  assume agree: "\<forall>p\<in>set (pre @ [s]). f html p = soup_select E html p"
  let ?E = "E\<lparr>soup_select := f\<rparr>" and ?cfg = "cfg\<lparr>item_selectors := pre @ s # post'\<rparr>"
  from a agree have "\<forall>p\<in>set pre. soup_select ?E html p = []"
    and "soup_select ?E html s \<noteq> []" and "soup_select ?E html s = soup_select E html s"
    by simp_all
  then have "scrape_page ?E ?cfg html = scrape_container ?E ?cfg (soup_select E html s)"
    using scrape_page_found [of pre ?E html s ?cfg post'] by simp
  then have "scrape_page ?E ?cfg html = scrape_container E cfg (soup_select E html s)"
    by (simp add: scrape_container_indep)
  moreover from a have "fetch ?E (page_url ?cfg) = Inr html" by simp
  ultimately show "fst (scrape_items ?E ?cfg w) = fst (scrape_items E cfg w)"
    using here by (simp add: scrape_items_fst)
next
  assume "fetch E (page_url cfg) = Inr html
        \<and> (\<forall>p\<in>set (item_selectors cfg). soup_select E html p = [])"
  then show "fst (scrape_items E cfg w) = Inl (RuntimeError (msg_no_container cfg))"
    by (simp add: scrape_items_fst scrape_page_def find_container_none)
qed

text \<open>
  On a page with no \<open>article\<close>, one \<open>div\<close> and two \<open>li\<close>, the selectors
  \<open>article\<close>, \<open>div\<close>, \<open>li\<close> give the one item of the \<open>div\<close>.
\<close>

theorem container_first_match_wins_witness:
  "by_tag page_lists ''article'' = []
   \<and> length (by_tag page_lists ''div'') = 1
   \<and> length (by_tag page_lists ''li'') = 2
   \<and> fst (scrape_items (example_env page_lists) example_cfg example_world)
       = scrape_container (example_env page_lists) example_cfg (by_tag page_lists ''div'')
   \<and> fst (scrape_items (example_env page_lists) example_cfg example_world)
       = Inr [\<lparr>item_title = ''Notice'', item_link = ''https://example.org/n1'',
                item_date = Datetime 2026 1 15 1000\<rparr>]"
proof -
  let ?E = "example_env page_lists"
  have sel: "soup_select ?E ''<html>'' = by_tag page_lists"
    by (simp add: example_env_def)
  have f: "fetch ?E (page_url example_cfg) = Inr ''<html>''"
    by (simp add: fetch_def example_env_def example_cfg_def)
  have c: "item_selectors example_cfg = [''article''] @ ''div'' # [''li'']"
    by (simp add: example_cfg_def)
  have a: "by_tag page_lists ''article'' = []"
    by (simp add: page_lists_def by_tag_def body_def h2_def a_href_def)
  have d: "by_tag page_lists ''div'' = [Node ''div'' [] [] [h2 ''Notice'', a_href ''/n1'' ''more'']]"
    by (simp add: page_lists_def by_tag_def body_def h2_def a_href_def)
  have l: "length (by_tag page_lists ''li'') = 2"
    by (simp add: page_lists_def by_tag_def body_def h2_def a_href_def)
  have "fst (scrape_items ?E example_cfg example_world)
          = scrape_container ?E example_cfg (by_tag page_lists ''div'')"
    using container_first_match_wins
      [of ?E example_cfg "''<html>''" "[''article'']" "''div''" "[''li'']" example_world]
      f c a d by (simp add: sel)
  moreover have "scrape_container ?E example_cfg (by_tag page_lists ''div'')
       = Inr [\<lparr>item_title = ''Notice'', item_link = ''https://example.org/n1'',
                item_date = Datetime 2026 1 15 1000\<rparr>]"
    unfolding d by (simp add: ex_simps)
  ultimately show ?thesis using a d l by simp
qed

section \<open>The loop over the candidates\<close>

lemma scrape_one_None_iff: "scrape_one E cfg i it = Inr None \<longleftrightarrow> dropped E cfg it"
  by (auto simp: scrape_one_def dropped_def split: option.splits sum.splits)

lemma scrape_loop_acc:
  "scrape_loop E cfg i xs acc =
     (case scrape_loop E cfg i xs [] of Inl e \<Rightarrow> Inl e | Inr ys \<Rightarrow> Inr (acc @ ys))"
proof (induction xs arbitrary: i acc)
  case Nil
  show ?case by simp
next
  case (Cons it rest)
  show ?case
  proof (cases "scrape_one E cfg i it")
    case (Inl e)
    then show ?thesis by simp
  next
    case (Inr r)
    show ?thesis
    proof (cases r)
      case None
      with Inr Cons.IH [of "Suc i" acc] show ?thesis by simp
    next
      case (Some x)
      with Inr Cons.IH [of "Suc i" "acc @ [x]"] Cons.IH [of "Suc i" "[x]"] show ?thesis
        by (simp split: sum.splits)
    qed
  qed
qed

lemma produced_pair:
  "produced E cfg (i, it) = (case scrape_one E cfg i it of Inl e \<Rightarrow> None | Inr r \<Rightarrow> r)"
  by (simp add: produced_def)

lemma dropped_scrape_one: "dropped E cfg it \<Longrightarrow> scrape_one E cfg i it = Inr None"
  by (simp add: scrape_one_None_iff)

lemma scrape_loop_items:
  "scrape_loop E cfg i xs [] = Inr ys \<Longrightarrow> ys = List.map_filter (produced E cfg) (enumerate i xs)"
proof (induction xs arbitrary: i ys)
  case Nil
  then show ?case by (simp add: List.map_filter_simps)
next
  case (Cons it rest)
  show ?case
  proof (cases "scrape_one E cfg i it")
    case (Inl e)
    with Cons.prems show ?thesis by simp
  next
    case (Inr r)
    show ?thesis
    proof (cases r)
      case None
      with Inr Cons.prems have "scrape_loop E cfg (Suc i) rest [] = Inr ys" by simp
      then have "ys = List.map_filter (produced E cfg) (enumerate (Suc i) rest)"
        by (rule Cons.IH)
      with Inr None show ?thesis by (simp add: List.map_filter_simps produced_pair)
    next
      case (Some x)
      with Inr Cons.prems have "scrape_loop E cfg (Suc i) rest [x] = Inr ys" by simp
      then obtain zs where zs: "scrape_loop E cfg (Suc i) rest [] = Inr zs" and ys: "ys = x # zs"
        using scrape_loop_acc [of E cfg "Suc i" rest "[x]"] by (auto split: sum.splits)
      from zs have "zs = List.map_filter (produced E cfg) (enumerate (Suc i) rest)"
        by (rule Cons.IH)
      with Inr Some ys show ?thesis by (simp add: List.map_filter_simps produced_pair)
    qed
  qed
qed

lemma scrape_loop_all_dropped:
  "\<forall>it\<in>set xs. dropped E cfg it \<Longrightarrow> scrape_loop E cfg i xs [] = Inr []"
  by (induction xs arbitrary: i) (simp_all add: dropped_scrape_one)

lemma scrape_loop_Nil_dropped:
  "scrape_loop E cfg i xs [] = Inr [] \<Longrightarrow> \<forall>it\<in>set xs. dropped E cfg it"
proof (induction xs arbitrary: i)
  case Nil
  show ?case by simp
next
  case (Cons it rest)
  show ?case
  proof (cases "scrape_one E cfg i it")
    case (Inl e)
    with Cons.prems show ?thesis by simp
  next
    case (Inr r)
    show ?thesis
    proof (cases r)
      case None
      with Inr Cons.prems have "scrape_loop E cfg (Suc i) rest [] = Inr []" by simp
      then have "\<forall>it\<in>set rest. dropped E cfg it" by (rule Cons.IH)
      moreover from Inr None have "dropped E cfg it" using scrape_one_None_iff [of E cfg i it] by simp
      ultimately show ?thesis by simp
    next
      case (Some x)
      with Inr Cons.prems have "scrape_loop E cfg (Suc i) rest [x] = Inr []" by simp
      then have False
        using scrape_loop_acc [of E cfg "Suc i" rest "[x]"] by (auto split: sum.splits)
      then show ?thesis ..
    qed
  qed
qed

section \<open>The two errors of the extractor\<close>

lemma fetch_Inl: "fetch E u = Inl e \<Longrightarrow> e = RequestException"
  by (auto simp: fetch_def split: option.splits)

lemma datetime_utc_Inl: "datetime_utc y m d = Inl e \<Longrightarrow> date_error e"
  by (auto simp: datetime_utc_def date_error_def split: if_splits)

lemma extract_date_Inl: "extract_date E it sels dt = Inl e \<Longrightarrow> date_error e"
  by (induction sels) (auto split: option.splits list.splits dest: datetime_utc_Inl)

lemma scrape_one_Inl: "scrape_one E cfg i it = Inl e \<Longrightarrow> date_error e"
  by (auto simp: scrape_one_def split: option.splits sum.splits dest: extract_date_Inl)

lemma scrape_loop_Inl: "scrape_loop E cfg i xs acc = Inl e \<Longrightarrow> date_error e"
  by (induction xs arbitrary: i acc) (auto split: sum.splits option.splits dest: scrape_one_Inl)

lemma msgs_differ: "msg_none_parsable cfg \<noteq> msg_no_container cfg"
  by (simp add: msg_none_parsable_def msg_no_container_def)

lemma scrape_container_none_parsable_iff:
  "scrape_container E cfg c = Inl (RuntimeError (msg_none_parsable cfg))
     \<longleftrightarrow> (\<forall>it\<in>set (take 30 c). dropped E cfg it)"
proof (cases "scrape_loop E cfg 0 (take 30 c) []")
  case (Inl e)
  then have "e = ValueError \<or> e = OverflowError"
    using scrape_loop_Inl [of E cfg 0 "take 30 c" "[]" e] by (simp add: date_error_def)
  moreover from Inl have "\<not> (\<forall>it\<in>set (take 30 c). dropped E cfg it)"
    using scrape_loop_all_dropped [of "take 30 c" E cfg 0] by auto
  ultimately show ?thesis using Inl by (auto simp: scrape_container_def)
next
  case (Inr items)
  show ?thesis
  proof (cases "items = []")
    case True
    with Inr have "\<forall>it\<in>set (take 30 c). dropped E cfg it"
      using scrape_loop_Nil_dropped [of E cfg 0 "take 30 c"] by simp
    with Inr True show ?thesis by (simp add: scrape_container_def)
  next
    case False
    with Inr have "\<not> (\<forall>it\<in>set (take 30 c). dropped E cfg it)"
      using scrape_loop_all_dropped [of "take 30 c" E cfg 0] by auto
    with Inr False show ?thesis by (simp add: scrape_container_def)
  qed
qed

lemma scrape_page_none_parsable_iff:
  "scrape_page E cfg html = Inl (RuntimeError (msg_none_parsable cfg))
     \<longleftrightarrow> (\<exists>c. find_container (soup_select E html) (item_selectors cfg) = Some c
              \<and> (\<forall>it\<in>set (take 30 c). dropped E cfg it))"
proof (cases "find_container (soup_select E html) (item_selectors cfg)")
  case None
  then show ?thesis using msgs_differ [of cfg] by (auto simp: scrape_page_def)
next
  case (Some c)
  then have "c \<noteq> []" using find_container_Some by blast
  with Some show ?thesis
    by (simp add: scrape_page_def scrape_container_none_parsable_iff)
qed

lemma scrape_container_not_no_container:
  "scrape_container E cfg c \<noteq> Inl (RuntimeError (msg_no_container cfg))"
proof (cases "scrape_loop E cfg 0 (take 30 c) []")
  case (Inl e)
  then have "e = ValueError \<or> e = OverflowError"
    using scrape_loop_Inl [of E cfg 0 "take 30 c" "[]" e] by (simp add: date_error_def)
  with Inl show ?thesis by (auto simp: scrape_container_def)
next
  case (Inr items)
  then show ?thesis using msgs_differ [of cfg] by (simp add: scrape_container_def)
qed

lemma scrape_page_no_container_iff:
  "scrape_page E cfg html = Inl (RuntimeError (msg_no_container cfg))
     \<longleftrightarrow> find_container (soup_select E html) (item_selectors cfg) = None"
proof (cases "find_container (soup_select E html) (item_selectors cfg)")
  case None
  then show ?thesis by (simp add: scrape_page_def)
next
  case (Some c)
  then have "c \<noteq> []" using find_container_Some by blast
  with Some show ?thesis
    by (simp add: scrape_page_def scrape_container_not_no_container)
qed

text \<open>
  In terms of the test of line 118: \<open>scrape_items\<close> raises the "none parsable"
  error exactly when the page was fetched, a container matched, and every candidate
  among the first 30 failed that test; it raises the "no container" error exactly when
  the page was fetched and no item selector matched; and the two errors carry different
  messages.
\<close>

lemma none_parsable_iff:
  "(fst (scrape_items E cfg w) = Inl (RuntimeError (msg_none_parsable cfg))
      \<longleftrightarrow> (\<exists>html c. fetch E (page_url cfg) = Inr html
               \<and> find_container (soup_select E html) (item_selectors cfg) = Some c
               \<and> (\<forall>it\<in>set (take 30 c). dropped E cfg it)))
   \<and> (fst (scrape_items E cfg w) = Inl (RuntimeError (msg_no_container cfg))
      \<longleftrightarrow> (\<exists>html. fetch E (page_url cfg) = Inr html
               \<and> find_container (soup_select E html) (item_selectors cfg) = None))
   \<and> msg_none_parsable cfg \<noteq> msg_no_container cfg"
proof (cases "fetch E (page_url cfg)")
  case (Inl e)
  then have "e = RequestException" by (rule fetch_Inl)
  with Inl show ?thesis by (simp add: scrape_items_fst msgs_differ)
next
  case (Inr html)
  then show ?thesis
    by (simp add: scrape_items_fst msgs_differ scrape_page_none_parsable_iff
        scrape_page_no_container_iff)
qed

lemma none_parsable_on_untitled:
  "fst (scrape_items (example_env page_untitled) example_cfg example_world)
     = Inl (RuntimeError (msg_none_parsable example_cfg))
   \<and> fst (scrape_items (example_env page_untitled) example_cfg example_world)
     \<noteq> Inl (RuntimeError (msg_no_container example_cfg))
   \<and> find_container (soup_select (example_env page_untitled) ''<html>'') (item_selectors example_cfg)
     = Some [article [a_href ''/x'' ''read''], article [h2 ''Closed'']]"
proof -
  let ?E = "example_env page_untitled"
  let ?c = "[article [a_href ''/x'' ''read''], article [h2 ''Closed'']]"
  have f: "fetch ?E (page_url example_cfg) = Inr ''<html>''"
    by (simp add: fetch_def example_env_def example_cfg_def)
  have c: "find_container (soup_select ?E ''<html>'') (item_selectors example_cfg) = Some ?c"
    by (simp add: page_untitled_def ex_simps)
  have d: "\<forall>it\<in>set (take 30 ?c). dropped ?E example_cfg it"
    by (simp add: ex_simps)
  from f c d have
    "\<exists>html c. fetch ?E (page_url example_cfg) = Inr html
       \<and> find_container (soup_select ?E html) (item_selectors example_cfg) = Some c
       \<and> (\<forall>it\<in>set (take 30 c). dropped ?E example_cfg it)"
    by blast
  then have "fst (scrape_items ?E example_cfg example_world)
     = Inl (RuntimeError (msg_none_parsable example_cfg))"
    using none_parsable_iff [of ?E example_cfg example_world] by blast
  moreover have "msg_none_parsable example_cfg \<noteq> msg_no_container example_cfg"
    using none_parsable_iff [of ?E example_cfg example_world] by blast
  ultimately show ?thesis using c by simp
qed

text \<open>
  Claim C5 says that a page whose container matches but whose items all lack a title
  or a link raises the "none parsable" error.  The test of line 118 lets a candidate
  pass whose last link selector matched an element without \<open>href\<close>.  On a page of
  two articles, each with a heading and an anchor without \<open>href\<close>, no link selector
  yields an element with an \<open>href\<close> in any candidate, yet \<open>scrape_items\<close> returns two
  items and raises nothing.
\<close>

theorem href_less_items_kept:
  "find_container (soup_select (example_env page_anchors) ''<html>'')
       (item_selectors (example_cfg\<lparr>link_selectors := [''h2'', ''a'']\<rparr>))
     = Some [article [h2 ''Lines'', a_bare ''top''], article [h2 ''Fares'', a_bare ''up'']]
   \<and> list_all
        (\<lambda>it. list_all
           (\<lambda>ls. case select_one (example_env page_anchors) it ls of
                    None \<Rightarrow> True
                  | Some el \<Rightarrow> \<not> has_href (example_env page_anchors) el)
           [''h2'', ''a''])
        [article [h2 ''Lines'', a_bare ''top''], article [h2 ''Fares'', a_bare ''up'']]
   \<and> fst (scrape_items (example_env page_anchors)
        (example_cfg\<lparr>link_selectors := [''h2'', ''a'']\<rparr>) example_world)
     = Inr [\<lparr>item_title = ''Lines'', item_link = ''https://example.org'',
              item_date = Datetime 2026 1 15 1000\<rparr>,
            \<lparr>item_title = ''Fares'', item_link = ''https://example.org'',
              item_date = Datetime 2026 1 15 1001\<rparr>]
   \<and> fst (scrape_items (example_env page_anchors)
        (example_cfg\<lparr>link_selectors := [''h2'', ''a'']\<rparr>) example_world)
     \<noteq> Inl (RuntimeError (msg_none_parsable (example_cfg\<lparr>link_selectors := [''h2'', ''a'']\<rparr>)))"
  by (simp add: scrape_items_def fetch_def page_anchors_def ex_simps)

section \<open>The cap on the candidates\<close>

lemma scrape_container_take: "scrape_container E cfg c = scrape_container E cfg (take 30 c)"
  by (simp add: scrape_container_def)

lemma length_map_filter_le: "length (List.map_filter f xs) \<le> length xs"
  by (induction xs) (simp_all add: List.map_filter_simps split: option.splits)

lemma scrape_container_items:
  assumes "scrape_container E cfg c = Inr items"
  shows "items = List.map_filter (produced E cfg) (enumerate 0 (take 30 c))"
proof -
  from assms have "scrape_loop E cfg 0 (take 30 c) [] = Inr items"
    by (simp add: scrape_container_def split: sum.splits if_splits)
  then show ?thesis by (rule scrape_loop_items)
qed

lemma scrape_items_container:
  assumes "fetch E (page_url cfg) = Inr html"
    and "find_container (soup_select E html) (item_selectors cfg) = Some c"
  shows "fst (scrape_items E cfg w) = scrape_container E cfg (take 30 c)"
proof -
  from assms(2) have "c \<noteq> []" using find_container_Some by blast
  with assms have "fst (scrape_items E cfg w) = scrape_container E cfg c"
    by (simp add: scrape_items_fst scrape_page_def)
  then show ?thesis using scrape_container_take [of E cfg c] by simp
qed

text \<open>
  Claim C6.  The cap of 30 applies to the candidates.  Whatever follows the first 30
  elements of the container has no influence on the result; \<open>scrape_items\<close> works on
  the first 30 elements of the container it found; and the items returned are what
  those candidates produce, in document order, so there are at most 30 of them and
  there may be fewer.
\<close>

theorem cap_on_candidates:
  "(length xs = 30 \<longrightarrow> scrape_container E cfg (xs @ ys) = scrape_container E cfg xs)
   \<and> (fetch E (page_url cfg) = Inr html
        \<and> find_container (soup_select E html) (item_selectors cfg) = Some c
      \<longrightarrow> fst (scrape_items E cfg w) = scrape_container E cfg (take 30 c))
   \<and> (scrape_container E cfg c = Inr items
        \<longrightarrow> items = List.map_filter (produced E cfg) (enumerate 0 (take 30 c))
            \<and> length items \<le> 30)"
proof (intro conjI impI)
  assume "length xs = 30"
  then show "scrape_container E cfg (xs @ ys) = scrape_container E cfg xs"
    by (simp add: scrape_container_def)
next
  assume "fetch E (page_url cfg) = Inr html
        \<and> find_container (soup_select E html) (item_selectors cfg) = Some c"
  then show "fst (scrape_items E cfg w) = scrape_container E cfg (take 30 c)"
    using scrape_items_container [of E cfg html c w] by blast
next
  assume a: "scrape_container E cfg c = Inr items"
  then show eq: "items = List.map_filter (produced E cfg) (enumerate 0 (take 30 c))"
    by (rule scrape_container_items)
  have "length (List.map_filter (produced E cfg) (enumerate 0 (take 30 c)))
          \<le> length (enumerate 0 (take 30 c))"
    by (rule length_map_filter_le)
  with eq show "length items \<le> 30" by simp
qed

text \<open>
  Forty candidates, of which the first 29 are dropped: the result is the one item of
  the thirtieth, and the ten complete candidates after it contribute nothing.
\<close>

theorem cap_on_candidates_witness:
  "length first_thirty = 30 \<and> length last_ten = 10
   \<and> scrape_container (example_env (body [])) example_cfg (first_thirty @ last_ten)
       = Inr [\<lparr>item_title = ''Kept'', item_link = ''https://example.org/k'',
                item_date = Datetime 2026 1 15 1029\<rparr>]"
proof -
  let ?E = "example_env (body [])"
  let ?r = "[\<lparr>item_title = ''Kept'', item_link = ''https://example.org/k'',
                item_date = Datetime 2026 1 15 1029\<rparr>]"
  have len: "length first_thirty = 30" "length last_ten = 10"
    by (simp_all add: first_thirty_def last_ten_def)
  have run: "scrape_container ?E example_cfg first_thirty = Inr ?r"
    by code_simp
  from len have eq: "scrape_container ?E example_cfg (first_thirty @ last_ten)
      = scrape_container ?E example_cfg first_thirty"
    using cap_on_candidates [of first_thirty ?E example_cfg last_ten] by blast
  with run have all: "scrape_container ?E example_cfg (first_thirty @ last_ten) = Inr ?r" by simp
  with len all show ?thesis by simp
qed

section \<open>Titles\<close>

lemma map_filter_mem: "x \<in> set (List.map_filter f xs) \<Longrightarrow> \<exists>p\<in>set xs. f p = Some x"
  by (induction xs) (auto simp: List.map_filter_simps split: option.splits)

lemma scrape_container_Inr: "scrape_container E cfg c = Inr items \<Longrightarrow> items \<noteq> []"
  by (auto simp: scrape_container_def split: if_splits sum.splits)

lemma scrape_page_Inr:
  assumes "scrape_page E cfg html = Inr items"
  shows "items \<noteq> [] \<and> (\<exists>c. scrape_container E cfg c = Inr items)"
proof -
  from assms obtain c where "scrape_container E cfg c = Inr items"
    by (auto simp: scrape_page_def split: option.splits if_splits)
  then show ?thesis using scrape_container_Inr by blast
qed

lemma scrape_items_Inr:
  assumes "fst (scrape_items E cfg w) = Inr items"
  shows "items \<noteq> [] \<and> (\<exists>c. scrape_container E cfg c = Inr items)"
proof -
  from assms obtain html where "scrape_page E cfg html = Inr items"
    by (auto simp: scrape_items_fst split: sum.splits)
  then show ?thesis by (rule scrape_page_Inr)
qed

text \<open>An article with an empty heading and a link is returned with the empty title.\<close>

theorem titles_nonempty_counterexample:
  "fst (scrape_items (example_env page_empty_title) example_cfg example_world)
     = Inr [\<lparr>item_title = [], item_link = ''https://example.org/e'',
              item_date = Datetime 2026 1 15 1000\<rparr>]"
  by (simp add: scrape_items_def fetch_def page_empty_title_def ex_simps)

lemma scrape_one_Some:
  "scrape_one E cfg i it = Inr (Some x) \<Longrightarrow>
     \<exists>title_el link_el.
        find_title_el E it (title_selectors cfg) None = Some title_el
        \<and> find_link_el E it (link_selectors cfg) None = Some link_el
        \<and> item_title x = clean (get_text E title_el)
        \<and> item_link x = urljoin E (page_url cfg) (get_attr E link_el ''href'')"
  by (auto simp: scrape_one_def split: option.splits sum.splits)

lemma find_title_el_first:
  "\<forall>p\<in>set pre. select_one E it p = None \<Longrightarrow> select_one E it s = Some el \<Longrightarrow>
   find_title_el E it (pre @ s # post) cur = Some el"
  by (induction pre arbitrary: cur) simp_all

lemma produced_Some:
  assumes "p \<in> set (enumerate 0 xs)" and "produced E cfg p = Some x"
  shows "\<exists>i<length xs. \<exists>title_el link_el.
        find_title_el E (xs ! i) (title_selectors cfg) None = Some title_el
        \<and> find_link_el E (xs ! i) (link_selectors cfg) None = Some link_el
        \<and> item_title x = clean (get_text E title_el)
        \<and> item_link x = urljoin E (page_url cfg) (get_attr E link_el ''href'')"
proof -
  from assms(1) have i: "fst p < length xs" and nth: "snd p = xs ! fst p"
    by (auto simp: in_set_enumerate_eq)
  from assms(2) have "scrape_one E cfg (fst p) (xs ! fst p) = Inr (Some x)"
    by (auto simp: produced_def nth split: sum.splits)
  from scrape_one_Some [OF this] obtain title_el link_el where
    "find_title_el E (xs ! fst p) (title_selectors cfg) None = Some title_el
        \<and> find_link_el E (xs ! fst p) (link_selectors cfg) None = Some link_el
        \<and> item_title x = clean (get_text E title_el)
        \<and> item_link x = urljoin E (page_url cfg) (get_attr E link_el ''href'')"
    by blast
  with i show ?thesis by blast
qed

lemma scrape_items_run:
  assumes "fst (scrape_items E cfg w) = Inr items"
  shows "\<exists>html c. fetch E (page_url cfg) = Inr html
           \<and> find_container (soup_select E html) (item_selectors cfg) = Some c
           \<and> scrape_container E cfg c = Inr items"
proof -
  from assms obtain html where f: "fetch E (page_url cfg) = Inr html"
    and p: "scrape_page E cfg html = Inr items"
    by (auto simp: scrape_items_fst split: sum.splits)
  from p obtain c where "find_container (soup_select E html) (item_selectors cfg) = Some c"
    and "scrape_container E cfg c = Inr items"
    by (auto simp: scrape_page_def split: option.splits if_splits)
  with f show ?thesis by blast
qed

text \<open>
  Claim C3, as amended.  For every successful call of \<open>scrape_items\<close> the returned
  sequence is not empty; it is what the first 30 candidates of the container produce,
  and every item in it stems from one of these candidates: its title is \<open>clean\<close> of
  the text of the element the title loop found in that candidate, its link comes from
  the element the link loop found in the same candidate, and so the title is
  whitespace-normalised, a fixed point of \<open>clean\<close>.  The title loop returns the match
  of the first title selector that matches.  The title itself may be the empty string.
\<close>

theorem titles_normalised:
  "(fst (scrape_items E cfg w) = Inr items \<longrightarrow>
     items \<noteq> []
     \<and> (\<exists>html c. fetch E (page_url cfg) = Inr html
           \<and> find_container (soup_select E html) (item_selectors cfg) = Some c
           \<and> items = List.map_filter (produced E cfg) (enumerate 0 (take 30 c))
           \<and> (\<forall>x\<in>set items. clean (item_title x) = item_title x
                 \<and> (\<exists>i<length (take 30 c). \<exists>title_el link_el.
                       find_title_el E (c ! i) (title_selectors cfg) None = Some title_el
                       \<and> find_link_el E (c ! i) (link_selectors cfg) None = Some link_el
                       \<and> item_title x = clean (get_text E title_el)
                       \<and> item_link x = urljoin E (page_url cfg) (get_attr E link_el ''href'')))))
   \<and> ((\<forall>p\<in>set pre. select_one E it p = None) \<and> select_one E it s = Some el
        \<longrightarrow> find_title_el E it (pre @ s # post) None = Some el)"
proof (intro conjI impI)
  assume a: "fst (scrape_items E cfg w) = Inr items"
  then show "items \<noteq> []" using scrape_items_Inr by blast
  from a obtain html c where f: "fetch E (page_url cfg) = Inr html"
    and fc: "find_container (soup_select E html) (item_selectors cfg) = Some c"
    and sc: "scrape_container E cfg c = Inr items"
    using scrape_items_run by blast
  let ?xs = "take 30 c"
  from sc have eq: "items = List.map_filter (produced E cfg) (enumerate 0 ?xs)"
    by (rule scrape_container_items)
  have each: "clean (item_title x) = item_title x
                 \<and> (\<exists>i<length ?xs. \<exists>title_el link_el.
                       find_title_el E (c ! i) (title_selectors cfg) None = Some title_el
                       \<and> find_link_el E (c ! i) (link_selectors cfg) None = Some link_el
                       \<and> item_title x = clean (get_text E title_el)
                       \<and> item_link x = urljoin E (page_url cfg) (get_attr E link_el ''href''))"
    if "x \<in> set items" for x
  proof -
    from that eq obtain p where p: "p \<in> set (enumerate 0 ?xs)" and pr: "produced E cfg p = Some x"
      using map_filter_mem [of x "produced E cfg" "enumerate 0 ?xs"] by blast
    from produced_Some [OF p pr] obtain i title_el link_el where i: "i < length ?xs"
      and t: "find_title_el E (?xs ! i) (title_selectors cfg) None = Some title_el"
      and l: "find_link_el E (?xs ! i) (link_selectors cfg) None = Some link_el"
      and ti: "item_title x = clean (get_text E title_el)"
      and li: "item_link x = urljoin E (page_url cfg) (get_attr E link_el ''href'')"
      by blast
    from i have "?xs ! i = c ! i" by simp
    with i t l ti li show ?thesis by (auto simp: clean_fixed)
  qed
  with f fc eq show "\<exists>html c. fetch E (page_url cfg) = Inr html
           \<and> find_container (soup_select E html) (item_selectors cfg) = Some c
           \<and> items = List.map_filter (produced E cfg) (enumerate 0 (take 30 c))
           \<and> (\<forall>x\<in>set items. clean (item_title x) = item_title x
                 \<and> (\<exists>i<length (take 30 c). \<exists>title_el link_el.
                       find_title_el E (c ! i) (title_selectors cfg) None = Some title_el
                       \<and> find_link_el E (c ! i) (link_selectors cfg) None = Some link_el
                       \<and> item_title x = clean (get_text E title_el)
                       \<and> item_link x = urljoin E (page_url cfg) (get_attr E link_el ''href'')))"
    by blast
next
  assume "(\<forall>p\<in>set pre. select_one E it p = None) \<and> select_one E it s = Some el"
  then show "find_title_el E it (pre @ s # post) None = Some el"
    by (simp add: find_title_el_first)
qed

text \<open>
  A heading spread over two lines gives the title with single spaces; the \<open>li\<close> next
  to the article is not in the container and contributes nothing.
\<close>

theorem titles_normalised_witness:
  "fst (scrape_items (example_env page_spaced) example_cfg example_world)
     = Inr [\<lparr>item_title = ''Road works'', item_link = ''https://example.org/r'',
              item_date = Datetime 2026 1 15 1000\<rparr>]
   \<and> node_text (h2 (''  Road'' @ [CHR 0x0A, CHR 0x09] @ ''works '')) \<noteq> ''Road works''
   \<and> clean ''Road works'' = ''Road works''
   \<and> find_title_el (example_env page_spaced) (article [Node ''h3'' [] ''Sub'' [], h2 ''Main''])
         [''h4'', ''h3'', ''h2''] None
       = Some (Node ''h3'' [] ''Sub'' [])"
proof -
  define E where "E = example_env page_spaced"
  define its where "its = [\<lparr>item_title = ''Road works'', item_link = ''https://example.org/r'',
              item_date = Datetime 2026 1 15 1000\<rparr>]"
  define cand where "cand = article [Node ''h3'' [] ''Sub'' [], h2 ''Main'']"
  have run: "fst (scrape_items E example_cfg example_world) = Inr its"
    unfolding E_def its_def
    by (simp add: scrape_items_def fetch_def page_spaced_def ex_simps)
  have "\<forall>x\<in>set its. clean (item_title x) = item_title x"
    using titles_normalised [of E example_cfg example_world its] run by blast
  then have fixed: "clean ''Road works'' = ''Road works''" by (simp add: its_def)
  have raw: "node_text (h2 (''  Road'' @ [CHR 0x0A, CHR 0x09] @ ''works '')) \<noteq> ''Road works''"
    by (simp add: h2_def)
  have none: "\<forall>p\<in>set [''h4'']. select_one E cand p = None"
    and some: "select_one E cand ''h3'' = Some (Node ''h3'' [] ''Sub'' [])"
    unfolding E_def cand_def by (simp_all add: ex_simps)
  from none some have "find_title_el E cand ([''h4''] @ ''h3'' # [''h2'']) None
       = Some (Node ''h3'' [] ''Sub'' [])"
    using titles_normalised [of E example_cfg example_world its "[''h4'']" cand "''h3''"
        "Node ''h3'' [] ''Sub'' []" "[''h2'']"]
    by blast
  then have first: "find_title_el E cand [''h4'', ''h3'', ''h2''] None
       = Some (Node ''h3'' [] ''Sub'' [])"
    by simp
  from run fixed raw first show ?thesis by (simp add: E_def its_def cand_def)
qed

section \<open>Links\<close>

lemma find_link_el_first_href:
  "\<forall>p\<in>set pre. (case select_one E it p of None \<Rightarrow> True | Some el \<Rightarrow> \<not> has_href E el) \<Longrightarrow>
   select_one E it ls = Some el \<Longrightarrow> has_href E el \<Longrightarrow>
   find_link_el E it (pre @ ls # post) cur = Some el"
  by (induction pre arbitrary: cur) (auto split: option.splits)

lemma find_link_el_last_match:
  "select_one E it ls = Some el \<Longrightarrow> \<not> has_href E el \<Longrightarrow>
   \<forall>p\<in>set pre. (case select_one E it p of None \<Rightarrow> True | Some el \<Rightarrow> \<not> has_href E el) \<Longrightarrow>
   find_link_el E it (pre @ [ls]) cur = Some el"
  by (induction pre arbitrary: cur) (auto split: option.splits)

text \<open>
  Claim C1 says that an item is dropped when no selector of \<open>link_selectors\<close> yields
  an element with a non-empty \<open>href\<close>.  The loop of lines 113 to 116 leaves \<open>link_el\<close>
  bound to the match of the last selector also when that match has no \<open>href\<close>, and
  line 118 tests only that \<open>link_el\<close> is not \<open>None\<close>.  On a page whose only anchor
  has no \<open>href\<close>, with \<open>a\<close> as the last link selector, the item is kept and its link
  is \<open>urljoin(page_url, None)\<close>.
\<close>

theorem link_without_href_kept:
  "get_attr (example_env page_no_href) (a_bare ''top'') ''href'' = None
   \<and> fst (scrape_items (example_env page_no_href)
        (example_cfg\<lparr>link_selectors := [''h2'', ''a'']\<rparr>) example_world)
     = Inr [\<lparr>item_title = ''Timetable'', item_link = ''https://example.org'',
              item_date = Datetime 2026 1 15 1000\<rparr>]"
  by (simp add: scrape_items_def fetch_def page_no_href_def ex_simps)

section \<open>Dates\<close>

lemma extract_date_first:
  "\<forall>p\<in>set pre. select_one E it p = None \<Longrightarrow> select_one E it s = Some d_el \<Longrightarrow>
   extract_date E it (pre @ s # post) dt =
     (case findall_digits (clean (get_text E d_el)) of
        d # m # y # others \<Rightarrow> datetime_utc (int_py y) (int_py m) (int_py d)
      | _ \<Rightarrow> Inr dt)"
  by (induction pre) simp_all

lemma extract_date_none:
  "\<forall>p\<in>set sels. select_one E it p = None \<Longrightarrow> extract_date E it sels dt = Inr dt"
  by (induction sels) simp_all

lemma datetime_utc_Inr: "datetime_utc y m d = Inr t \<Longrightarrow> t = Datetime y m d 0"
  by (auto simp: datetime_utc_def split: if_splits)

lemma datetime_utc_overflow: "datetime_utc 2024 5 4294967296 = Inl OverflowError"
  by (simp add: datetime_utc_def INT_MAX_def)

lemma scrape_one_date:
  "scrape_one E cfg i it = Inr (Some x) \<Longrightarrow>
     extract_date E it (date_selectors cfg) (utcnow E i) = Inr (item_date x)"
  by (auto simp: scrape_one_def split: option.splits sum.splits)

lemma short_list_case:
  "length ps < 3 \<Longrightarrow> (case ps of d # m # y # others \<Rightarrow> f d m y | _ \<Rightarrow> g) = g"
  by (auto split: list.splits)

text \<open>
  Claim C7.  The date loop stops at the first selector that matches a sub-element,
  whatever follows it in \<open>date_selectors\<close>.  With fewer than three digit groups in the
  normalised text of that element the default timestamp is kept; with at least three,
  the first three are passed to the \<open>datetime\<close> constructor as day, month and year,
  and a timestamp that results is that date at midnight UTC.  Without any match the
  default is kept, and the date of an item is the outcome of this loop started from the
  clock reading of its iteration.
\<close>

theorem date_chain_short_circuits:
  "((\<forall>p\<in>set pre. select_one E it p = None) \<and> select_one E it s = Some d_el
      \<longrightarrow> extract_date E it (pre @ s # post) dt =
            (case findall_digits (clean (get_text E d_el)) of
               d # m # y # others \<Rightarrow> datetime_utc (int_py y) (int_py m) (int_py d)
             | _ \<Rightarrow> Inr dt)
          \<and> (length (findall_digits (clean (get_text E d_el))) < 3
                \<longrightarrow> extract_date E it (pre @ s # post) dt = Inr dt)
          \<and> (\<forall>d m y others t.
                findall_digits (clean (get_text E d_el)) = d # m # y # others
                \<and> extract_date E it (pre @ s # post) dt = Inr t
                \<longrightarrow> t = Datetime (int_py y) (int_py m) (int_py d) 0))
   \<and> ((\<forall>p\<in>set sels. select_one E it p = None) \<longrightarrow> extract_date E it sels dt = Inr dt)
   \<and> (scrape_one E cfg i it = Inr (Some x)
        \<longrightarrow> extract_date E it (date_selectors cfg) (utcnow E i) = Inr (item_date x))"
proof (intro conjI impI allI)
  assume a: "(\<forall>p\<in>set pre. select_one E it p = None) \<and> select_one E it s = Some d_el"
  then show eq: "extract_date E it (pre @ s # post) dt =
            (case findall_digits (clean (get_text E d_el)) of
               d # m # y # others \<Rightarrow> datetime_utc (int_py y) (int_py m) (int_py d)
             | _ \<Rightarrow> Inr dt)"
    by (simp add: extract_date_first)
  {
    assume "length (findall_digits (clean (get_text E d_el))) < 3"
    then show "extract_date E it (pre @ s # post) dt = Inr dt"
      unfolding eq by (rule short_list_case)
  }
  {
    fix d m y others t
    assume "findall_digits (clean (get_text E d_el)) = d # m # y # others
                \<and> extract_date E it (pre @ s # post) dt = Inr t"
    with eq have "datetime_utc (int_py y) (int_py m) (int_py d) = Inr t" by simp
    then show "t = Datetime (int_py y) (int_py m) (int_py d) 0" by (rule datetime_utc_Inr)
  }
next
  assume "\<forall>p\<in>set sels. select_one E it p = None"
  then show "extract_date E it sels dt = Inr dt" by (rule extract_date_none)
next
  assume "scrape_one E cfg i it = Inr (Some x)"
  then show "extract_date E it (date_selectors cfg) (utcnow E i) = Inr (item_date x)"
    by (rule scrape_one_date)
qed

theorem date_chain_short_circuits_witness:
  "select_one (example_env (body [])) item_tba ''time'' = Some (time_el ''TBA'')
   \<and> select_one (example_env (body [])) item_tba ''span'' = Some (span_el ''12.05.2024'')
   \<and> extract_date (example_env (body [])) item_tba [''time'', ''span''] (example_now 3)
       = Inr (example_now 3)
   \<and> extract_date (example_env (body [])) item_dated [''h4'', ''time'', ''span''] (example_now 4)
       = Inr (Datetime 2024 5 12 0)"
proof -
  let ?E = "example_env (body [])"
  have t: "select_one ?E item_tba ''time'' = Some (time_el ''TBA'')"
    and s: "select_one ?E item_tba ''span'' = Some (span_el ''12.05.2024'')"
    by (simp_all add: item_tba_def ex_simps)
  have g: "findall_digits (clean (get_text ?E (time_el ''TBA''))) = []"
    by (simp add: ex_simps)
  have "extract_date ?E item_tba ([] @ ''time'' # [''span'']) (example_now 3) = Inr (example_now 3)"
    using date_chain_short_circuits
      [of "[]" ?E item_tba "''time''" "time_el ''TBA''" "[''span'']" "example_now 3"] t g
    by simp
  then have one: "extract_date ?E item_tba [''time'', ''span''] (example_now 3) = Inr (example_now 3)"
    by simp
  have h: "select_one ?E item_dated ''h4'' = None"
    and d: "select_one ?E item_dated ''time'' = Some (time_el ''12.05.2024.'')"
    by (simp_all add: item_dated_def ex_simps)
  have g2: "findall_digits (clean (get_text ?E (time_el ''12.05.2024.''))) = [''12'', ''05'', ''2024'']"
    by (simp add: ex_simps)
  have v: "datetime_utc (int_py ''2024'') (int_py ''05'') (int_py ''12'') = Inr (Datetime 2024 5 12 0)"
    by (simp add: datetime_utc_def INT_MAX_def int_py_def days_in_month_def)
  have "extract_date ?E item_dated ([''h4''] @ ''time'' # [''span'']) (example_now 4)
          = Inr (Datetime 2024 5 12 0)"
    using date_chain_short_circuits
      [of "[''h4'']" ?E item_dated "''time''" "time_el ''12.05.2024.''" "[''span'']" "example_now 4"]
      h d g2 v
    by simp
  then have two: "extract_date ?E item_dated [''h4'', ''time'', ''span''] (example_now 4)
       = Inr (Datetime 2024 5 12 0)"
    by simp
  from t s one two show ?thesis by simp
qed

text \<open>
  Claim C2 says that date extraction never raises.  The text \<open>2024 05 12\<close> has three
  digit groups, read as day 2024, month 5, year 12; the \<open>datetime\<close> constructor
  raises \<open>ValueError\<close> and \<open>scrape_items\<close> with it.
\<close>

theorem invalid_date_raises:
  "findall_digits (clean ''2024 05 12'') = [''2024'', ''05'', ''12'']
   \<and> datetime_utc 12 5 2024 = Inl ValueError
   \<and> fst (scrape_items (example_env page_year_first) example_cfg example_world) = Inl ValueError"
  by (simp add: scrape_items_def fetch_def page_year_first_def ex_simps datetime_utc_def
      INT_MAX_def int_py_def days_in_month_def)

section \<open>Feed entries\<close>

lemma add_entries_entries:
  "fg_entries (add_entries its fg) = rev (map entry_of its) @ fg_entries fg"
  by (induction its arbitrary: fg) (simp_all add: add_entry_def)

text \<open>
  Claim C8 says that the entries of the feed are in the order of the extracted items.
  The loop of lines 154 to 159 goes through the items in order, but \<open>add_entry\<close> is
  called with its default \<open>order\<close>, which inserts at the front: for two items with
  different links the identifiers of the entries come out in the opposite order.
\<close>

theorem feed_order_reversed:
  "map entry_id (fg_entries (build_feed example_cfg [item_one, item_two]))
     = [''https://example.org/2'', ''https://example.org/1'']
   \<and> map item_link [item_one, item_two] = [''https://example.org/1'', ''https://example.org/2'']
   \<and> map entry_id (fg_entries (build_feed example_cfg [item_one, item_two]))
     \<noteq> map item_link [item_one, item_two]"
  by (simp add: build_feed_def add_entry_def entry_of_def item_one_def item_two_def)

text \<open>
  In general the feed holds exactly one entry per extracted item, each entry's
  identifier is the link of its item (equal links give equal identifiers), and the
  entry list is the reversed item list.
\<close>

lemma feed_entries_reversed:
  "fg_entries (build_feed cfg items) = rev (map entry_of items)
   \<and> map entry_id (fg_entries (build_feed cfg items)) = rev (map item_link items)
   \<and> length (fg_entries (build_feed cfg items)) = length items"
  by (simp add: build_feed_def add_entries_entries entry_of_def rev_map)

section \<open>File system effects\<close>

lemma probe_fs: "dirs (probe E cfg html w) = dirs w \<and> files (probe E cfg html w) = files w"
  by (simp add: probe_def print_def Let_def split: option.splits)

lemma scrape_items_fs:
  "dirs (snd (scrape_items E cfg w)) = dirs w \<and> files (snd (scrape_items E cfg w)) = files w"
  by (simp add: scrape_items_def probe_fs split: sum.splits)

text \<open>
  Claim C10.  When \<open>scrape_items\<close> raises, \<open>build_rss\<close> raises the same exception
  and leaves the directories and the files as they were: no directory is created and
  no file is written or changed.
\<close>

theorem build_rss_no_effect_on_failure:
  "fst (scrape_items E cfg w) = Inl e \<longrightarrow>
     fst (build_rss E cfg out_dir w) = Inl e
     \<and> dirs (snd (build_rss E cfg out_dir w)) = dirs w
     \<and> files (snd (build_rss E cfg out_dir w)) = files w"
proof
  assume a: "fst (scrape_items E cfg w) = Inl e"
  obtain r w1 where rw: "scrape_items E cfg w = (r, w1)" by (cases "scrape_items E cfg w")
  with a have r: "r = Inl e" by simp
  from rw scrape_items_fs [of E cfg w] have "dirs w1 = dirs w \<and> files w1 = files w" by simp
  with rw r show "fst (build_rss E cfg out_dir w) = Inl e
     \<and> dirs (snd (build_rss E cfg out_dir w)) = dirs w
     \<and> files (snd (build_rss E cfg out_dir w)) = files w"
    by (simp add: build_rss_def)
qed

theorem build_rss_no_effect_on_failure_witness:
  "fst (scrape_items (example_env (body [])) example_cfg example_world)
     = Inl (RuntimeError (msg_no_container example_cfg))
   \<and> fst (build_rss (example_env (body [])) example_cfg [''docs'', ''rss''] example_world)
     = Inl (RuntimeError (msg_no_container example_cfg))
   \<and> dirs (snd (build_rss (example_env (body [])) example_cfg [''docs'', ''rss''] example_world))
     = {[''docs''], [''docs'', ''rss'']}
   \<and> files (snd (build_rss (example_env (body [])) example_cfg [''docs'', ''rss''] example_world))
        [''docs'', ''rss'', ''demo.xml''] = Some ''<old/>''"
proof -
  let ?E = "example_env (body [])"
  have f: "fst (scrape_items ?E example_cfg example_world)
     = Inl (RuntimeError (msg_no_container example_cfg))"
    by (simp add: scrape_items_def fetch_def ex_simps)
  have w: "dirs example_world = {[''docs''], [''docs'', ''rss'']}"
    "files example_world [''docs'', ''rss'', ''demo.xml''] = Some ''<old/>''"
    by (simp_all add: example_world_def)
  from f w show ?thesis
    using build_rss_no_effect_on_failure
      [of ?E example_cfg example_world "RuntimeError (msg_no_container example_cfg)" "[''docs'', ''rss'']"]
    by simp
qed

end
